theory Spec2Isabelle
  imports Main "HOL-Library.Word"
begin

section \<open>The data of App.tsx\<close>

text \<open>
  The component keeps its state in React hooks and talks to two collaborators: the wallet
  provider (\<^verbatim>\<open>window.ethereum\<close>, wrapped by ethers) and the registry contract. The
  state is a record, the collaborators are a record of functions over an arbitrary world
  \<open>'w\<close>, and every handler is a function on a machine that holds the React state, the
  world, the number of registered \<^verbatim>\<open>accountsChanged\<close> callbacks and the sequence of
  effects performed so far.

  A handler is run from its call to its return as one step; what another handler would do
  while this one awaits is not part of the model. A handler reads the hooks from the
  render that created it, so every read of a hook is a read of the state at the call,
  while the setters act on the current state.
\<close>

text \<open>The interface \<^verbatim>\<open>Asset\<close>.\<close>

record asset =
  id' :: nat
  name :: string
  hash :: string
  owner :: string
  timestamp :: nat

datatype provider = BrowserProvider

text \<open>A signer handle, identified by the address it signs for.\<close>

datatype signer = Signer string

text \<open>\<^verbatim>\<open>new ethers.Contract(address, abi, signer)\<close>: the handle keeps its target and its runner.\<close>

datatype contract = Contract (target: string) (runner: signer)

text \<open>The transaction response returned by a mutating call, identified by its hash.\<close>

type_synonym tx = string

text \<open>
  The value of \<^verbatim>\<open>Number(text)\<close> for a form field: an integer, or any other double (NaN,
  an infinity, a value with a fractional part).
\<close>

datatype jsnum = JInt int | JOther

text \<open>The tuple returned by \<^verbatim>\<open>getAsset\<close>: name, hash, owner, timestamp (a uint256).\<close>

type_synonym rawasset = "string \<times> string \<times> string \<times> 256 word"

text \<open>The hooks of the component (lines 36 to 49).\<close>

record app_state =
  provider :: "provider option"
  signer :: "signer option"
  contract :: "contract option"
  account :: string
  assets :: "asset list"
  message :: string
  loading :: bool
  assetName :: string
  assetHash :: string
  verifyAssetId :: string
  verifyHash :: string
  transferAssetId :: string
  transferTo :: string

text \<open>
  The collaborators. Every awaited call either rejects with an error, of which the
  handlers read \<^verbatim>\<open>error.message\<close>, or resolves with a value; it may change the world.
\<close>

record 'w env =
  env_ethereum :: "'w \<Rightarrow> bool"
  env_getSigner :: "'w \<Rightarrow> (string + signer) \<times> 'w"
  env_getAddress :: "signer \<Rightarrow> 'w \<Rightarrow> (string + string) \<times> 'w"
  env_on :: "'w \<Rightarrow> (string + unit) \<times> 'w"
  env_newContract :: "string \<Rightarrow> signer \<Rightarrow> 'w \<Rightarrow> (string + contract) \<times> 'w"
  env_Number :: "string \<Rightarrow> jsnum"
  env_assetCount :: "contract \<Rightarrow> 'w \<Rightarrow> (string + 256 word) \<times> 'w"
  env_getAsset :: "contract \<Rightarrow> nat \<Rightarrow> 'w \<Rightarrow> (string + rawasset) \<times> 'w"
  env_registerAsset :: "contract \<Rightarrow> string \<Rightarrow> string \<Rightarrow> 'w \<Rightarrow> (string + tx) \<times> 'w"
  env_transferOwnership :: "contract \<Rightarrow> jsnum \<Rightarrow> string \<Rightarrow> 'w \<Rightarrow> (string + tx) \<times> 'w"
  env_verifyAsset :: "contract \<Rightarrow> jsnum \<Rightarrow> string \<Rightarrow> 'w \<Rightarrow> (string + bool) \<times> 'w"
  env_wait :: "tx \<Rightarrow> 'w \<Rightarrow> (string + unit) \<times> 'w"

text \<open>The effects a handler performs, in program order.\<close>

datatype call =
    GetSigner
  | GetAddress
  | OnAccountsChanged
  | NewContract
  | AssetCount
  | GetAsset nat
  | RegisterAsset string string
  | TransferOwnership jsnum string
  | VerifyAsset jsnum string
  | Wait tx

datatype update =
    SetProvider provider
  | SetSigner signer
  | SetContract contract
  | SetAccount string
  | SetAssets "asset list"
  | SetMessage string
  | SetLoading bool
  | SetAssetName string
  | SetAssetHash string
  | SetVerifyAssetId string
  | SetVerifyHash string
  | SetTransferAssetId string
  | SetTransferTo string

datatype event = Call call | Threw string | Set update

record 'w machine =
  ui :: app_state
  world :: 'w
  listeners :: nat
  trace :: "event list"

section \<open>JavaScript numbers and strings\<close>

text \<open>
  \<^verbatim>\<open>Number(b)\<close> for a non-negative bigint below \<open>2 ^ 1024\<close>: the nearest double, ties to the
  even significand. Below \<open>2 ^ 53\<close> it is exact.
\<close>

fun bit_length :: "nat \<Rightarrow> nat" where
  "bit_length n = (if n = 0 then 0 else Suc (bit_length (n div 2)))"

declare bit_length.simps [simp del]

definition Number_bigint :: "nat \<Rightarrow> nat" where
  "Number_bigint b =
     (if b < 2 ^ 53 then b
      else let e = bit_length b - 53; q = b div 2 ^ e; r = b mod 2 ^ e; h = 2 ^ (e - 1)
           in if h < r \<or> (r = h \<and> odd q) then (q + 1) * 2 ^ e else q * 2 ^ e)"

text \<open>\<^verbatim>\<open>i++\<close> on a double that holds an integer: the sum is rounded to a double again.\<close>

definition js_inc :: "nat \<Rightarrow> nat" where
  "js_inc i = Number_bigint (i + 1)"

text \<open>\<^verbatim>\<open>s.includes(t)\<close>.\<close>

fun includes_str :: "string \<Rightarrow> string \<Rightarrow> bool" where
  "includes_str [] t = (t = [])"
| "includes_str (x # xs) t = (take (length t) (x # xs) = t \<or> includes_str xs t)"

text \<open>The three marks of the messages, as their UTF-8 bytes.\<close>

definition cross_mark :: string where
  "cross_mark = [CHR 0xE2, CHR 0x9D, CHR 0x8C]"

definition check_mark :: string where
  "check_mark = [CHR 0xE2, CHR 0x9C, CHR 0x85]"

definition warning_sign :: string where
  "warning_sign = [CHR 0xE2, CHR 0x9A, CHR 0xA0, CHR 0xEF, CHR 0xB8, CHR 0x8F]"

text \<open>\<^verbatim>\<open>accounts[0] || ""\<close>.\<close>

fun first_account :: "string list \<Rightarrow> string" where
  "first_account [] = ''''"
| "first_account (a # as) = (if a = '''' then '''' else a)"

section \<open>Primitive effects\<close>

fun apply_update :: "update \<Rightarrow> app_state \<Rightarrow> app_state" where
  "apply_update (SetProvider p) s = s\<lparr>provider := Some p\<rparr>"
| "apply_update (SetSigner g) s = s\<lparr>signer := Some g\<rparr>"
| "apply_update (SetContract c) s = s\<lparr>contract := Some c\<rparr>"
| "apply_update (SetAccount a) s = s\<lparr>account := a\<rparr>"
| "apply_update (SetAssets l) s = s\<lparr>assets := l\<rparr>"
| "apply_update (SetMessage m) s = s\<lparr>message := m\<rparr>"
| "apply_update (SetLoading b) s = s\<lparr>loading := b\<rparr>"
| "apply_update (SetAssetName n) s = s\<lparr>assetName := n\<rparr>"
| "apply_update (SetAssetHash h) s = s\<lparr>assetHash := h\<rparr>"
| "apply_update (SetVerifyAssetId i) s = s\<lparr>verifyAssetId := i\<rparr>"
| "apply_update (SetVerifyHash h) s = s\<lparr>verifyHash := h\<rparr>"
| "apply_update (SetTransferAssetId i) s = s\<lparr>transferAssetId := i\<rparr>"
| "apply_update (SetTransferTo t) s = s\<lparr>transferTo := t\<rparr>"

text \<open>A state setter: the hook is updated and the update is recorded.\<close>

definition setState :: "update \<Rightarrow> 'w machine \<Rightarrow> 'w machine" where
  "setState u \<sigma> = \<sigma>\<lparr>ui := apply_update u (ui \<sigma>), trace := trace \<sigma> @ [Set u]\<rparr>"

text \<open>
  A call of a collaborator: it answers from the current world; the call, and the error
  when it rejects or throws, are recorded. The constructor of the contract handle is
  recorded in the same way, so that its exception has its place among the effects.
\<close>

definition perform ::
  "call \<Rightarrow> ('w \<Rightarrow> (string + 'a) \<times> 'w) \<Rightarrow> 'w machine \<Rightarrow> (string + 'a) \<times> 'w machine" where
  "perform c f \<sigma> =
     (case f (world \<sigma>) of
        (Inl e, w) \<Rightarrow> (Inl e, \<sigma>\<lparr>world := w, trace := trace \<sigma> @ [Call c, Threw e]\<rparr>)
      | (Inr v, w) \<Rightarrow> (Inr v, \<sigma>\<lparr>world := w, trace := trace \<sigma> @ [Call c]\<rparr>))"

section \<open>The handlers\<close>

subsection \<open>connectWallet (lines 52 to 75) and the accountsChanged callback\<close>

definition msg_no_metamask :: string where
  "msg_no_metamask = warning_sign @ '' MetaMask not detected. Please install it.''"

definition msg_wallet_connected :: string where
  "msg_wallet_connected = check_mark @ '' Wallet connected successfully!''"

definition msg_wallet_error :: "string \<Rightarrow> string" where
  "msg_wallet_error e = cross_mark @ '' Error connecting wallet: '' @ e"

text \<open>
  \<^verbatim>\<open>window.ethereum.on("accountsChanged", cb)\<close>: when the provider accepts the
  registration, one more callback is registered; nothing in the component removes one.
\<close>

definition on_accountsChanged :: "'w env \<Rightarrow> 'w machine \<Rightarrow> (string + unit) \<times> 'w machine" where
  "on_accountsChanged env \<sigma> =
     (case perform OnAccountsChanged (env_on env) \<sigma> of
        (Inl e, \<sigma>') \<Rightarrow> (Inl e, \<sigma>')
      | (Inr u, \<sigma>') \<Rightarrow> (Inr u, \<sigma>'\<lparr>listeners := Suc (listeners \<sigma>')\<rparr>))"

definition connectWallet :: "'w env \<Rightarrow> 'w machine \<Rightarrow> 'w machine" where
  "connectWallet env \<sigma> =
     (if \<not> env_ethereum env (world \<sigma>) then setState (SetMessage msg_no_metamask) \<sigma>
      else
        case perform GetSigner (env_getSigner env) \<sigma> of
          (Inl e, \<sigma>1) \<Rightarrow> setState (SetMessage (msg_wallet_error e)) \<sigma>1
        | (Inr sg, \<sigma>1) \<Rightarrow>
            (case perform GetAddress (env_getAddress env sg) \<sigma>1 of
               (Inl e, \<sigma>2) \<Rightarrow> setState (SetMessage (msg_wallet_error e)) \<sigma>2
             | (Inr address, \<sigma>2) \<Rightarrow>
                 (case on_accountsChanged env
                         (setState (SetAccount address)
                           (setState (SetSigner sg)
                             (setState (SetProvider BrowserProvider) \<sigma>2))) of
                    (Inl e, \<sigma>3) \<Rightarrow> setState (SetMessage (msg_wallet_error e)) \<sigma>3
                  | (Inr u, \<sigma>3) \<Rightarrow> setState (SetMessage msg_wallet_connected) \<sigma>3)))"

text \<open>The callback registered at line 67.\<close>

definition accountsChanged_callback :: "string list \<Rightarrow> 'w machine \<Rightarrow> 'w machine" where
  "accountsChanged_callback accounts \<sigma> = setState (SetAccount (first_account accounts)) \<sigma>"

text \<open>The provider emits the event: every registered callback runs once.\<close>

definition emit_accountsChanged :: "string list \<Rightarrow> 'w machine \<Rightarrow> 'w machine" where
  "emit_accountsChanged accounts \<sigma> = (accountsChanged_callback accounts ^^ listeners \<sigma>) \<sigma>"

text \<open>The effect hook of lines 170 to 174, run once when the component mounts.\<close>

definition mount :: "'w env \<Rightarrow> 'w machine \<Rightarrow> 'w machine" where
  "mount env \<sigma> = (if env_ethereum env (world \<sigma>) then connectWallet env \<sigma> else \<sigma>)"

subsection \<open>loadAssets (lines 145 to 168)\<close>

definition msg_load_error :: "string \<Rightarrow> string" where
  "msg_load_error e = cross_mark @ '' Error loading assets: '' @ e"

definition make_asset :: "nat \<Rightarrow> rawasset \<Rightarrow> asset" where
  "make_asset i a =
     (case a of (a0, a1, a2, a3) \<Rightarrow>
        \<lparr>id' = i, name = a0, hash = a1, owner = a2, timestamp = Number_bigint (unat a3)\<rparr>)"

text \<open>
  The \<^verbatim>\<open>for\<close> loop. The counter is a double, so the loop need not end when the bound is
  \<open>2 ^ 53\<close> or more: not returning is the value \<open>None\<close>.
\<close>

partial_function (option) loadLoop ::
  "'w env \<Rightarrow> contract \<Rightarrow> nat \<Rightarrow> nat \<Rightarrow> asset list \<Rightarrow> 'w machine
     \<Rightarrow> ((string + asset list) \<times> 'w machine) option" where
  "loadLoop env c i n list \<sigma> =
     (if i \<le> n then
        (case perform (GetAsset i) (env_getAsset env c i) \<sigma> of
           (Inl e, \<sigma>') \<Rightarrow> Some (Inl e, \<sigma>')
         | (Inr a, \<sigma>') \<Rightarrow> loadLoop env c (js_inc i) n (list @ [make_asset i a]) \<sigma>')
      else Some (Inr list, \<sigma>))"

text \<open>
  \<open>cl\<close> is the state the handler closed over when it was rendered; \<open>c\<close> is the optional
  argument.
\<close>

definition loadAssets ::
  "'w env \<Rightarrow> app_state \<Rightarrow> contract option \<Rightarrow> 'w machine \<Rightarrow> 'w machine option" where
  "loadAssets env cl c \<sigma> =
     (case (case c of Some c' \<Rightarrow> Some c' | None \<Rightarrow> contract cl) of
        None \<Rightarrow> Some \<sigma>
      | Some contractToUse \<Rightarrow>
          (case perform AssetCount (env_assetCount env contractToUse) \<sigma> of
             (Inl e, \<sigma>1) \<Rightarrow> Some (setState (SetMessage (msg_load_error e)) \<sigma>1)
           | (Inr count, \<sigma>1) \<Rightarrow>
               (case loadLoop env contractToUse 1 (Number_bigint (unat count)) [] \<sigma>1 of
                  None \<Rightarrow> None
                | Some (Inl e, \<sigma>2) \<Rightarrow> Some (setState (SetMessage (msg_load_error e)) \<sigma>2)
                | Some (Inr list, \<sigma>2) \<Rightarrow> Some (setState (SetAssets list) \<sigma>2))))"

subsection \<open>connectContract (lines 78 to 92)\<close>

definition CONTRACT_ADDRESS :: string where
  "CONTRACT_ADDRESS = ''0xcbf9ffdca6e9a6b74cd43b971e817e55647d4e6e''"

definition msg_connect_wallet_first :: string where
  "msg_connect_wallet_first = warning_sign @ '' Connect wallet first!''"

definition msg_contract_connected :: string where
  "msg_contract_connected = check_mark @ '' Connected to contract!''"

definition msg_contract_error :: "string \<Rightarrow> string" where
  "msg_contract_error e = cross_mark @ '' Error connecting contract: '' @ e"

definition connectContract :: "'w env \<Rightarrow> 'w machine \<Rightarrow> 'w machine option" where
  "connectContract env \<sigma> =
     (let cl = ui \<sigma> in
      case signer cl of
        None \<Rightarrow> Some (setState (SetMessage msg_connect_wallet_first) \<sigma>)
      | Some sg \<Rightarrow>
          (case perform NewContract (env_newContract env CONTRACT_ADDRESS sg) \<sigma> of
             (Inl e, \<sigma>1) \<Rightarrow> Some (setState (SetMessage (msg_contract_error e)) \<sigma>1)
           | (Inr c, \<sigma>1) \<Rightarrow>
               loadAssets env cl (Some c)
                 (setState (SetMessage msg_contract_connected) (setState (SetContract c) \<sigma>1))))"

subsection \<open>registerAsset (lines 95 to 111)\<close>

definition msg_registered :: string where
  "msg_registered = check_mark @ '' Asset registered successfully!''"

definition msg_register_error :: "string \<Rightarrow> string" where
  "msg_register_error e = cross_mark @ '' Error registering asset: '' @ e"

definition registerAsset :: "'w env \<Rightarrow> 'w machine \<Rightarrow> 'w machine option" where
  "registerAsset env \<sigma> =
     (let cl = ui \<sigma> in
      case contract cl of
        None \<Rightarrow> Some \<sigma>
      | Some c \<Rightarrow>
          (case perform (RegisterAsset (assetName cl) (assetHash cl))
                  (env_registerAsset env c (assetName cl) (assetHash cl))
                  (setState (SetLoading True) \<sigma>) of
             (Inl e, \<sigma>1) \<Rightarrow>
               Some (setState (SetLoading False) (setState (SetMessage (msg_register_error e)) \<sigma>1))
           | (Inr t, \<sigma>1) \<Rightarrow>
               (case perform (Wait t) (env_wait env t) \<sigma>1 of
                  (Inl e, \<sigma>2) \<Rightarrow>
                    Some (setState (SetLoading False)
                           (setState (SetMessage (msg_register_error e)) \<sigma>2))
                | (Inr u, \<sigma>2) \<Rightarrow>
                    (case loadAssets env cl (Some c)
                            (setState (SetAssetHash [])
                              (setState (SetAssetName [])
                                (setState (SetMessage msg_registered) \<sigma>2))) of
                       None \<Rightarrow> None
                     | Some \<sigma>3 \<Rightarrow> Some (setState (SetLoading False) \<sigma>3)))))"

subsection \<open>transferOwnership (lines 114 to 130)\<close>

definition msg_transferred :: string where
  "msg_transferred = check_mark @ '' Ownership transferred!''"

definition msg_transfer_error :: "string \<Rightarrow> string" where
  "msg_transfer_error e = cross_mark @ '' Error transferring ownership: '' @ e"

definition transferOwnership :: "'w env \<Rightarrow> 'w machine \<Rightarrow> 'w machine option" where
  "transferOwnership env \<sigma> =
     (let cl = ui \<sigma> in
      case contract cl of
        None \<Rightarrow> Some \<sigma>
      | Some c \<Rightarrow>
          (case perform (TransferOwnership (env_Number env (transferAssetId cl)) (transferTo cl))
                  (env_transferOwnership env c (env_Number env (transferAssetId cl)) (transferTo cl))
                  (setState (SetLoading True) \<sigma>) of
             (Inl e, \<sigma>1) \<Rightarrow>
               Some (setState (SetLoading False) (setState (SetMessage (msg_transfer_error e)) \<sigma>1))
           | (Inr t, \<sigma>1) \<Rightarrow>
               (case perform (Wait t) (env_wait env t) \<sigma>1 of
                  (Inl e, \<sigma>2) \<Rightarrow>
                    Some (setState (SetLoading False)
                           (setState (SetMessage (msg_transfer_error e)) \<sigma>2))
                | (Inr u, \<sigma>2) \<Rightarrow>
                    (case loadAssets env cl (Some c)
                            (setState (SetTransferTo [])
                              (setState (SetTransferAssetId [])
                                (setState (SetMessage msg_transferred) \<sigma>2))) of
                       None \<Rightarrow> None
                     | Some \<sigma>3 \<Rightarrow> Some (setState (SetLoading False) \<sigma>3)))))"

subsection \<open>verifyAsset (lines 133 to 142)\<close>

definition msg_hash_valid :: string where
  "msg_hash_valid = check_mark @ '' Asset hash is valid!''"

definition msg_hash_mismatch :: string where
  "msg_hash_mismatch = cross_mark @ '' Asset hash mismatch!''"

definition msg_verify_error :: "string \<Rightarrow> string" where
  "msg_verify_error e = cross_mark @ '' Error verifying asset: '' @ e"

definition verifyAsset :: "'w env \<Rightarrow> 'w machine \<Rightarrow> 'w machine" where
  "verifyAsset env \<sigma> =
     (let cl = ui \<sigma> in
      case contract cl of
        None \<Rightarrow> \<sigma>
      | Some c \<Rightarrow>
          (case perform (VerifyAsset (env_Number env (verifyAssetId cl)) (verifyHash cl))
                  (env_verifyAsset env c (env_Number env (verifyAssetId cl)) (verifyHash cl)) \<sigma> of
             (Inl e, \<sigma>1) \<Rightarrow> setState (SetMessage (msg_verify_error e)) \<sigma>1
           | (Inr valid, \<sigma>1) \<Rightarrow>
               setState (SetMessage (if valid then msg_hash_valid else msg_hash_mismatch)) \<sigma>1))"

subsection \<open>The rendered controls (lines 176 to 278)\<close>

text \<open>A disabled button dispatches no click: its handler does not run.\<close>

definition clickConnectContract :: "'w env \<Rightarrow> 'w machine \<Rightarrow> 'w machine option" where
  "clickConnectContract env \<sigma> =
     (if signer (ui \<sigma>) = None then Some \<sigma> else connectContract env \<sigma>)"

definition clickRegister :: "'w env \<Rightarrow> 'w machine \<Rightarrow> 'w machine option" where
  "clickRegister env \<sigma> =
     (if contract (ui \<sigma>) = None \<or> loading (ui \<sigma>) then Some \<sigma> else registerAsset env \<sigma>)"

definition clickTransfer :: "'w env \<Rightarrow> 'w machine \<Rightarrow> 'w machine option" where
  "clickTransfer env \<sigma> =
     (if contract (ui \<sigma>) = None \<or> loading (ui \<sigma>) then Some \<sigma> else transferOwnership env \<sigma>)"

definition clickVerify :: "'w env \<Rightarrow> 'w machine \<Rightarrow> 'w machine" where
  "clickVerify env \<sigma> = (if contract (ui \<sigma>) = None then \<sigma> else verifyAsset env \<sigma>)"

definition clickRefresh :: "'w env \<Rightarrow> 'w machine \<Rightarrow> 'w machine option" where
  "clickRefresh env \<sigma> =
     (if contract (ui \<sigma>) = None then Some \<sigma> else loadAssets env (ui \<sigma>) None \<sigma>)"

text \<open>
  The status message of lines 269 to 273: nothing is rendered for the empty message,
  otherwise the class name is chosen by searching the text for the cross mark.
\<close>

datatype severity = SeverityError | SeveritySuccess

definition messageSeverity :: "string \<Rightarrow> severity" where
  "messageSeverity m = (if includes_str m cross_mark then SeverityError else SeveritySuccess)"

definition messageClassName :: "string \<Rightarrow> string option" where
  "messageClassName m =
     (if m = [] then None
      else Some (''message '' @
                 (case messageSeverity m of
                    SeverityError \<Rightarrow> ''error''
                  | SeveritySuccess \<Rightarrow> ''success'')))"

text \<open>The initial values of the hooks and the inputs of the forms (\<^verbatim>\<open>onChange\<close>).\<close>

definition initial_state :: app_state where
  "initial_state =
     \<lparr>provider = None, signer = None, contract = None, account = [], assets = [],
      message = [], loading = False, assetName = [], assetHash = [], verifyAssetId = [],
      verifyHash = [], transferAssetId = [], transferTo = []\<rparr>"

definition typeAssetName :: "string \<Rightarrow> 'w machine \<Rightarrow> 'w machine" where
  "typeAssetName v = setState (SetAssetName v)"

definition typeAssetHash :: "string \<Rightarrow> 'w machine \<Rightarrow> 'w machine" where
  "typeAssetHash v = setState (SetAssetHash v)"

definition typeVerifyAssetId :: "string \<Rightarrow> 'w machine \<Rightarrow> 'w machine" where
  "typeVerifyAssetId v = setState (SetVerifyAssetId v)"

definition typeVerifyHash :: "string \<Rightarrow> 'w machine \<Rightarrow> 'w machine" where
  "typeVerifyHash v = setState (SetVerifyHash v)"

definition typeTransferAssetId :: "string \<Rightarrow> 'w machine \<Rightarrow> 'w machine" where
  "typeTransferAssetId v = setState (SetTransferAssetId v)"

definition typeTransferTo :: "string \<Rightarrow> 'w machine \<Rightarrow> 'w machine" where
  "typeTransferTo v = setState (SetTransferTo v)"

text \<open>\<open>n\<close> calls of \<^verbatim>\<open>connectWallet\<close>, one after the other.\<close>

fun connect_times :: "'w env \<Rightarrow> nat \<Rightarrow> 'w machine \<Rightarrow> 'w machine" where
  "connect_times env 0 \<sigma> = \<sigma>"
| "connect_times env (Suc n) \<sigma> = connectWallet env (connect_times env n \<sigma>)"

section \<open>Vocabulary of the statements\<close>

text \<open>The reads of the assets with the given ids, in the order of the list.\<close>

definition gets :: "nat list \<Rightarrow> event list" where
  "gets ids = map (\<lambda>j. Call (GetAsset j)) ids"

text \<open>The reads of the assets \<open>i\<close>, \<open>i + 1\<close>, ... up to \<open>k - 1\<close>, in this order.\<close>

definition reads :: "nat \<Rightarrow> nat \<Rightarrow> event list" where
  "reads i k = gets [i..<k]"




text \<open>
  A count that a double holds exactly and that the loop counter can pass: below \<open>2 ^ 53\<close>.
\<close>

definition exact_count :: "(string + 256 word) \<times> 'w \<Rightarrow> bool" where
  "exact_count r = (case fst r of Inl e \<Rightarrow> True | Inr count \<Rightarrow> unat count < 2 ^ 53)"

definition counts_exact :: "'w env \<Rightarrow> bool" where
  "counts_exact env = (\<forall>c w. exact_count (env_assetCount env c w))"

text \<open>An id that names a stored asset: an integer from 1 to the number of assets.\<close>

definition id_in_range :: "jsnum \<Rightarrow> nat \<Rightarrow> bool" where
  "id_in_range n count = (case n of JInt i \<Rightarrow> 1 \<le> i \<and> i \<le> int count | JOther \<Rightarrow> False)"

section \<open>The registry's verification\<close>

text \<open>
  Modelled from the spec: the cause \<^verbatim>\<open>ReadError\<close> of section 7, as the text of the error
  of a rejected read. The registry contract is not among the sources.
\<close>

definition read_error :: string where
  "read_error = ''ReadError''"

text \<open>
  Modelled from the spec: the stored \<^verbatim>\<open>contentHash\<close> of the asset with the given id. The
  registry contract is not among the sources; by section 3 the ids are 1-based and dense,
  so the asset \<open>i\<close> is the entry \<open>i - 1\<close> of the stored sequence.
\<close>

definition stored_hash :: "rawasset list \<Rightarrow> jsnum \<Rightarrow> string" where
  "stored_hash stored n = (case n of JInt i \<Rightarrow> fst (snd (stored ! (nat i - 1))) | JOther \<Rightarrow> [])"

text \<open>
  Modelled from the spec: the contract function behind \<^verbatim>\<open>verifyAsset\<close>, which is not among
  the sources. Section 4.2: \<^verbatim>\<open>readVerify(binding, id, hash)\<close> is a pure read that returns
  whether \<^verbatim>\<open>hash\<close> equals the stored \<^verbatim>\<open>contentHash\<close> of asset \<^verbatim>\<open>id\<close>; a non-existent
  \<^verbatim>\<open>id\<close> yields \<^verbatim>\<open>Failure{ReadError}\<close> rather than \<^verbatim>\<open>false\<close>.
\<close>

definition readVerify :: "rawasset list \<Rightarrow> jsnum \<Rightarrow> string \<Rightarrow> string + bool" where
  "readVerify stored n h =
     (if id_in_range n (length stored) then Inr (stored_hash stored n = h) else Inl read_error)"

section \<open>A concrete environment\<close>

text \<open>
  A wallet that reveals the account \<^verbatim>\<open>0xAA\<close> and a registry with room for one asset.
  \<open>demo_Number\<close> stands for \<^verbatim>\<open>Number\<close> on the texts of the examples: the empty text is 0,
  a text of decimal digits is its value, and no other text is used.
\<close>

type_synonym demo_world = "rawasset option"

definition demo_Number :: "string \<Rightarrow> jsnum" where
  "demo_Number s =
     (if list_all (\<lambda>ch. ch \<in> set ''0123456789'') s
      then JInt (int (Number_bigint (foldl (\<lambda>a ch. 10 * a + (of_char ch - 48)) 0 s)))
      else JOther)"

definition demo_stored :: "demo_world \<Rightarrow> rawasset list" where
  "demo_stored w = (case w of None \<Rightarrow> [] | Some a \<Rightarrow> [a])"

definition demo_env :: "demo_world env" where
  "demo_env =
     \<lparr>env_ethereum = (\<lambda>w. True),
      env_getSigner = (\<lambda>w. (Inr (Signer ''0xAA''), w)),
      env_getAddress = (\<lambda>g w. case g of Signer a \<Rightarrow> (Inr a, w)),
      env_on = (\<lambda>w. (Inr (), w)),
      env_newContract = (\<lambda>a g w. (Inr (Contract a g), w)),
      env_Number = demo_Number,
      env_assetCount = (\<lambda>c w. (Inr (of_nat (length (demo_stored w))), w)),
      env_getAsset = (\<lambda>c i w. case w of
                         None \<Rightarrow> (Inl ''no such asset'', w)
                       | Some a \<Rightarrow> if i = 1 then (Inr a, w) else (Inl ''no such asset'', w)),
      env_registerAsset = (\<lambda>c n h w. case w of
                         None \<Rightarrow> (Inr ''0x01'',
                                   Some (n, h, (case runner c of Signer a \<Rightarrow> a), 1700000000))
                       | Some a \<Rightarrow> (Inl ''registry full'', w)),
      env_transferOwnership = (\<lambda>c n t w. case w of
                         None \<Rightarrow> (Inl ''no such asset'', w)
                       | Some (a0, a1, a2, a3) \<Rightarrow>
                           if n = JInt 1 then (Inr ''0x02'', Some (a0, a1, t, a3))
                           else (Inl ''no such asset'', w)),
      env_verifyAsset = (\<lambda>c n h w. (readVerify (demo_stored w) n h, w)),
      env_wait = (\<lambda>t w. (Inr (), w))\<rparr>"

text \<open>No wallet extension is installed.\<close>

definition no_wallet_env :: "demo_world env" where
  "no_wallet_env = demo_env\<lparr>env_ethereum := (\<lambda>w. False)\<rparr>"

text \<open>The user declines the wallet's request.\<close>

definition declining_env :: "demo_world env" where
  "declining_env = demo_env\<lparr>env_getSigner := (\<lambda>w. (Inl ''user rejected action'', w))\<rparr>"


text \<open>The page as first rendered, over the empty registry.\<close>

definition demo_init :: "demo_world machine" where
  "demo_init = \<lparr>ui = initial_state, world = None, listeners = 0, trace = []\<rparr>"

definition demo_contract :: contract where
  "demo_contract = Contract CONTRACT_ADDRESS (Signer ''0xAA'')"

text \<open>
  Wallet and contract are connected and the registration form is filled in; the effects
  are counted from here.
\<close>

definition demo_ready :: "demo_world machine" where
  "demo_ready =
     \<lparr>ui = initial_state
         \<lparr>provider := Some BrowserProvider, signer := Some (Signer ''0xAA''),
          contract := Some demo_contract, account := ''0xAA'',
          message := msg_contract_connected,
          assetName := ''Deed A'', assetHash := ''0xabc''\<rparr>,
      world = None, listeners = 1, trace = []\<rparr>"

definition deed_A :: rawasset where
  "deed_A = (''Deed A'', ''0xabc'', ''0xAA'', 1700000000)"

text \<open>The asset is registered and shown; the other two forms are filled in.\<close>

definition demo_loaded :: "demo_world machine" where
  "demo_loaded =
     \<lparr>ui = initial_state
         \<lparr>provider := Some BrowserProvider, signer := Some (Signer ''0xAA''),
          contract := Some demo_contract, account := ''0xAA'',
          assets := [make_asset 1 deed_A], message := msg_registered,
          verifyAssetId := ''1'', verifyHash := ''0xabc'',
          transferAssetId := ''1'', transferTo := ''0xBB''\<rparr>,
      world = Some deed_A, listeners = 1, trace = []\<rparr>"

text \<open>The same page while a registration is awaited: the busy flag is set.\<close>

definition demo_busy :: "demo_world machine" where
  "demo_busy = setState (SetLoading True) demo_ready"

text \<open>The registration form with the name left empty.\<close>

definition demo_unnamed :: "demo_world machine" where
  "demo_unnamed = demo_ready\<lparr>ui := (ui demo_ready)\<lparr>assetName := []\<rparr>\<rparr>"

text \<open>The transfer form with an id that names no asset and a text that is no address.\<close>

definition demo_bad_transfer :: "demo_world machine" where
  "demo_bad_transfer =
     demo_loaded\<lparr>ui := (ui demo_loaded)\<lparr>transferAssetId := ''7'', transferTo := ''nobody''\<rparr>\<rparr>"


section \<open>Numbers, effects and the loop\<close>

lemma Number_bigint_exact: "b < 2 ^ 53 \<Longrightarrow> Number_bigint b = b"
  by (simp add: Number_bigint_def)

lemma bit_length_double: "0 < n \<Longrightarrow> bit_length (2 * n) = Suc (bit_length n)"
  by (subst bit_length.simps) simp

lemma bit_length_power2: "bit_length (2 ^ k) = Suc k"
proof (induction k)
  case 0
  show ?case by (simp add: bit_length.simps [of "Suc 0"] bit_length.simps [of 0])
next
  case (Suc k)
  then show ?case by (simp add: bit_length_double)
qed

lemma Number_bigint_2_53: "Number_bigint (2 ^ 53) = 2 ^ 53"
proof -
  define p :: nat where "p = 2 ^ 52"
  have len: "bit_length (2 * p) = 54"
    unfolding p_def using bit_length_power2 [of 53] by simp
  have big: "\<not> 2 * p < 2 ^ 53"
    by (simp add: p_def)
  have "Number_bigint (2 * p) = 2 * p"
    unfolding Number_bigint_def Let_def using big by (simp add: len)
  then show ?thesis
    by (simp add: p_def)
qed

lemma js_inc_exact: "i < 2 ^ 53 \<Longrightarrow> js_inc i = Suc i"
proof -
  assume "i < 2 ^ 53"
  then have "Suc i < 2 ^ 53 \<or> Suc i = 2 ^ 53" by linarith
  then show ?thesis
  proof
    assume "Suc i < 2 ^ 53"
    then show ?thesis by (simp add: js_inc_def Number_bigint_exact)
  next
    assume "Suc i = 2 ^ 53"
    then have "Number_bigint (Suc i) = Suc i"
      by (metis Number_bigint_2_53)
    then show ?thesis by (simp add: js_inc_def)
  qed
qed

lemma ui_setState [simp]: "ui (setState u \<sigma>) = apply_update u (ui \<sigma>)"
  and world_setState [simp]: "world (setState u \<sigma>) = world \<sigma>"
  and listeners_setState [simp]: "listeners (setState u \<sigma>) = listeners \<sigma>"
  and trace_setState [simp]: "trace (setState u \<sigma>) = trace \<sigma> @ [Set u]"
  by (simp_all add: setState_def)

lemma performE:
  assumes "perform c f \<sigma> = (r, \<sigma>')"
  shows "ui \<sigma>' = ui \<sigma>" and "listeners \<sigma>' = listeners \<sigma>"
    and "f (world \<sigma>) = (r, world \<sigma>')"
    and "trace \<sigma>' = trace \<sigma> @ Call c # (case r of Inl e \<Rightarrow> [Threw e] | Inr v \<Rightarrow> [])"
  using assms by (auto simp: perform_def split: prod.splits sum.splits)

lemma loadLoop_step:
  "i \<le> n \<Longrightarrow> loadLoop env c i n list \<sigma> =
     (case perform (GetAsset i) (env_getAsset env c i) \<sigma> of
        (Inl e, \<sigma>') \<Rightarrow> Some (Inl e, \<sigma>')
      | (Inr a, \<sigma>') \<Rightarrow> loadLoop env c (js_inc i) n (list @ [make_asset i a]) \<sigma>')"
  by (subst loadLoop.simps) simp

lemma loadLoop_stop: "\<not> i \<le> n \<Longrightarrow> loadLoop env c i n list \<sigma> = Some (Inr list, \<sigma>)"
  by (subst loadLoop.simps) simp

lemmas demo_defs = demo_env_def demo_ready_def demo_loaded_def demo_init_def demo_busy_def
  demo_unnamed_def demo_bad_transfer_def demo_contract_def initial_state_def demo_stored_def
  deed_A_def

lemmas run_defs = registerAsset_def transferOwnership_def verifyAsset_def connectContract_def
  connectWallet_def on_accountsChanged_def loadAssets_def perform_def setState_def
  loadLoop_step loadLoop_stop Number_bigint_exact js_inc_def make_asset_def demo_Number_def

lemmas msg_defs = msg_no_metamask_def msg_wallet_connected_def msg_wallet_error_def
  msg_load_error_def msg_connect_wallet_first_def msg_contract_connected_def
  msg_contract_error_def msg_registered_def msg_register_error_def msg_transferred_def
  msg_transfer_error_def msg_hash_valid_def msg_hash_mismatch_def msg_verify_error_def

lemma includes_prefix: "includes_str (cross_mark @ r) cross_mark"
  by (simp add: cross_mark_def)

lemma msg_wallet_connected_distinct:
  "msg_no_metamask \<noteq> msg_wallet_connected" "msg_wallet_error e \<noteq> msg_wallet_connected"
  by (simp_all add: msg_defs check_mark_def cross_mark_def warning_sign_def)

lemma callback_frame:
  "ui (accountsChanged_callback accounts \<sigma>) = (ui \<sigma>)\<lparr>account := first_account accounts\<rparr>"
  "world (accountsChanged_callback accounts \<sigma>) = world \<sigma>"
  "listeners (accountsChanged_callback accounts \<sigma>) = listeners \<sigma>"
  "trace (accountsChanged_callback accounts \<sigma>) = trace \<sigma> @ [Set (SetAccount (first_account accounts))]"
  by (simp_all add: accountsChanged_callback_def)

lemma callback_iterated:
  "ui ((accountsChanged_callback accounts ^^ n) \<sigma>)
     = (if n = 0 then ui \<sigma> else (ui \<sigma>)\<lparr>account := first_account accounts\<rparr>)"
  "world ((accountsChanged_callback accounts ^^ n) \<sigma>) = world \<sigma>"
  "listeners ((accountsChanged_callback accounts ^^ n) \<sigma>) = listeners \<sigma>"
  "trace ((accountsChanged_callback accounts ^^ n) \<sigma>)
     = trace \<sigma> @ replicate n (Set (SetAccount (first_account accounts)))"
  by (induction n) (simp_all add: callback_frame replicate_append_same)

text \<open>
  Whenever the loop returns, it has changed neither the hooks nor the callbacks, and its
  effects are reads of assets, closed by the error when the last read was rejected.
\<close>

lemma loadLoop_returns_aux:
  assumes "loadLoop env c i n list \<sigma> = Some y"
  shows "ui (snd y) = ui \<sigma> \<and> listeners (snd y) = listeners \<sigma>
       \<and> (\<exists>ids. trace (snd y) = trace \<sigma> @ gets ids
                    @ (case fst y of Inl e \<Rightarrow> [Threw e] | Inr l \<Rightarrow> []))"
proof (rule loadLoop.raw_induct
    [where P = "\<lambda>env c i n list \<sigma> y. ui (snd y) = ui \<sigma> \<and> listeners (snd y) = listeners \<sigma>
       \<and> (\<exists>ids. trace (snd y) = trace \<sigma> @ gets ids
                    @ (case fst y of Inl e \<Rightarrow> [Threw e] | Inr l \<Rightarrow> []))",
      OF _ assms])
  fix loadLoop :: "'w env \<Rightarrow> contract \<Rightarrow> nat \<Rightarrow> nat \<Rightarrow> asset list \<Rightarrow> 'w machine
     \<Rightarrow> ((string + asset list) \<times> 'w machine) option"
  fix env c i n list \<sigma> y
  assume ih: "\<And>env c i n list \<sigma> y. loadLoop env c i n list \<sigma> = Some y
                \<Longrightarrow> ui (snd y) = ui \<sigma> \<and> listeners (snd y) = listeners \<sigma>
       \<and> (\<exists>ids. trace (snd y) = trace \<sigma> @ gets ids
                    @ (case fst y of Inl e \<Rightarrow> [Threw e] | Inr l \<Rightarrow> []))"
  assume body: "(if i \<le> n then
        (case perform (GetAsset i) (env_getAsset env c i) \<sigma> of
           (Inl e, \<sigma>') \<Rightarrow> Some (Inl e, \<sigma>')
         | (Inr a, \<sigma>') \<Rightarrow> loadLoop env c (js_inc i) n (list @ [make_asset i a]) \<sigma>')
      else Some (Inr list, \<sigma>)) = Some y"
  show "ui (snd y) = ui \<sigma> \<and> listeners (snd y) = listeners \<sigma>
       \<and> (\<exists>ids. trace (snd y) = trace \<sigma> @ gets ids
                    @ (case fst y of Inl e \<Rightarrow> [Threw e] | Inr l \<Rightarrow> []))"
  proof (cases "i \<le> n")
    case False
    with body have "y = (Inr list, \<sigma>)" by simp
    then have "trace (snd y) = trace \<sigma> @ gets [] @ (case fst y of Inl e \<Rightarrow> [Threw e] | Inr l \<Rightarrow> [])"
      by (simp add: gets_def)
    with \<open>y = (Inr list, \<sigma>)\<close> show ?thesis by auto
  next
    case True
    obtain r \<sigma>1 where p: "perform (GetAsset i) (env_getAsset env c i) \<sigma> = (r, \<sigma>1)"
      by (cases "perform (GetAsset i) (env_getAsset env c i) \<sigma>")
    note pe = performE [OF p]
    show ?thesis
    proof (cases r)
      case (Inl e)
      with True p body have y: "y = (Inl e, \<sigma>1)" by simp
      have "trace (snd y) = trace \<sigma> @ gets [i] @ (case fst y of Inl e \<Rightarrow> [Threw e] | Inr l \<Rightarrow> [])"
        using y pe(4) Inl by (simp add: gets_def)
      with y pe(1,2) show ?thesis by auto
    next
      case (Inr a)
      with True p body have "loadLoop env c (js_inc i) n (list @ [make_asset i a]) \<sigma>1 = Some y"
        by simp
      from ih [OF this] obtain ids where
        u: "ui (snd y) = ui \<sigma>1" "listeners (snd y) = listeners \<sigma>1"
        and t: "trace (snd y) = trace \<sigma>1 @ gets ids
                    @ (case fst y of Inl e \<Rightarrow> [Threw e] | Inr l \<Rightarrow> [])"
        by blast
      have "trace (snd y) = trace \<sigma> @ gets (i # ids)
                    @ (case fst y of Inl e \<Rightarrow> [Threw e] | Inr l \<Rightarrow> [])"
        using t pe(4) Inr by (simp add: gets_def)
      with u pe(1,2) show ?thesis by auto
    qed
  qed
qed

lemma loadLoop_returns:
  assumes "loadLoop env c i n list \<sigma> = Some (r, \<sigma>')"
  shows "ui \<sigma>' = ui \<sigma>" and "listeners \<sigma>' = listeners \<sigma>"
    and "\<exists>ids. trace \<sigma>' = trace \<sigma> @ gets ids @ (case r of Inl e \<Rightarrow> [Threw e] | Inr l \<Rightarrow> [])"
  using loadLoop_returns_aux [OF assms] by simp_all

text \<open>With a bound below \<open>2 ^ 53\<close> the loop returns, and its reads are in ascending order.\<close>

lemma loadLoop_total:
  assumes "n < 2 ^ 53" and "i \<le> Suc n"
  shows "\<exists>r \<sigma>'. loadLoop env c i n list \<sigma> = Some (r, \<sigma>') \<and> ui \<sigma>' = ui \<sigma>
           \<and> listeners \<sigma>' = listeners \<sigma>
           \<and> ((\<exists>new. r = Inr (list @ new) \<and> map id' new = [i..<Suc n]
                  \<and> trace \<sigma>' = trace \<sigma> @ reads i (Suc n))
              \<or> (\<exists>k e. i \<le> k \<and> k \<le> n \<and> r = Inl e
                  \<and> trace \<sigma>' = trace \<sigma> @ reads i (Suc k) @ [Threw e]))"
  using assms
proof (induction "Suc n - i" arbitrary: i list \<sigma>)
  case 0
  then have "\<not> i \<le> n" by simp
  then have "loadLoop env c i n list \<sigma> = Some (Inr list, \<sigma>)"
    by (simp add: loadLoop.simps)
  moreover from 0 have "[i..<Suc n] = []" by simp
  ultimately show ?case by (simp add: reads_def gets_def)
next
  case (Suc d)
  then have le: "i \<le> n" by simp
  obtain r \<sigma>1 where p: "perform (GetAsset i) (env_getAsset env c i) \<sigma> = (r, \<sigma>1)"
    by (cases "perform (GetAsset i) (env_getAsset env c i) \<sigma>")
  note pe = performE [OF p]
  show ?case
  proof (cases r)
    case (Inl e)
    with le p have "loadLoop env c i n list \<sigma> = Some (Inl e, \<sigma>1)"
      by (simp add: loadLoop.simps [of env c i])
    moreover have "trace \<sigma>1 = trace \<sigma> @ reads i (Suc i) @ [Threw e]"
      using pe(4) Inl by (simp add: reads_def gets_def)
    ultimately show ?thesis using pe(1,2) le by auto
  next
    case (Inr a)
    from le Suc.prems have inc: "js_inc i = Suc i"
      by (simp add: js_inc_exact)
    have step: "loadLoop env c i n list \<sigma> = loadLoop env c (Suc i) n (list @ [make_asset i a]) \<sigma>1"
      using le p Inr inc by (simp add: loadLoop.simps [of env c i])
    have "d = Suc n - Suc i" using Suc.hyps(2) by simp
    from Suc.hyps(1) [OF this Suc.prems(1), of "list @ [make_asset i a]" \<sigma>1] le
    have "\<exists>r' \<sigma>'. loadLoop env c (Suc i) n (list @ [make_asset i a]) \<sigma>1 = Some (r', \<sigma>')
       \<and> ui \<sigma>' = ui \<sigma>1 \<and> listeners \<sigma>' = listeners \<sigma>1
       \<and> ((\<exists>new. r' = Inr ((list @ [make_asset i a]) @ new) \<and> map id' new = [Suc i..<Suc n]
                  \<and> trace \<sigma>' = trace \<sigma>1 @ reads (Suc i) (Suc n))
              \<or> (\<exists>k e. Suc i \<le> k \<and> k \<le> n \<and> r' = Inl e
                  \<and> trace \<sigma>' = trace \<sigma>1 @ reads (Suc i) (Suc k) @ [Threw e]))"
      by simp
    then obtain r' \<sigma>' where rec: "loadLoop env c (Suc i) n (list @ [make_asset i a]) \<sigma>1 = Some (r', \<sigma>')"
      and u: "ui \<sigma>' = ui \<sigma>1" "listeners \<sigma>' = listeners \<sigma>1"
      and sh: "(\<exists>new. r' = Inr ((list @ [make_asset i a]) @ new) \<and> map id' new = [Suc i..<Suc n]
                  \<and> trace \<sigma>' = trace \<sigma>1 @ reads (Suc i) (Suc n))
              \<or> (\<exists>k e. Suc i \<le> k \<and> k \<le> n \<and> r' = Inl e
                  \<and> trace \<sigma>' = trace \<sigma>1 @ reads (Suc i) (Suc k) @ [Threw e])"
      by blast
    have tr1: "trace \<sigma>1 = trace \<sigma> @ [Call (GetAsset i)]"
      using pe(4) Inr by simp
    have rd: "\<And>k. i \<le> k \<Longrightarrow> reads i (Suc k) = Call (GetAsset i) # reads (Suc i) (Suc k)"
      by (simp add: reads_def gets_def upt_conv_Cons)
    from sh show ?thesis
    proof
      assume "\<exists>new. r' = Inr ((list @ [make_asset i a]) @ new) \<and> map id' new = [Suc i..<Suc n]
                  \<and> trace \<sigma>' = trace \<sigma>1 @ reads (Suc i) (Suc n)"
      then obtain new where n: "r' = Inr ((list @ [make_asset i a]) @ new)"
        "map id' new = [Suc i..<Suc n]" "trace \<sigma>' = trace \<sigma>1 @ reads (Suc i) (Suc n)"
        by blast
      have "map id' (make_asset i a # new) = [i..<Suc n]"
        using n(2) le by (simp add: make_asset_def upt_conv_Cons split: prod.splits)
      moreover have "r' = Inr (list @ make_asset i a # new)" using n(1) by simp
      moreover have "trace \<sigma>' = trace \<sigma> @ reads i (Suc n)"
        using n(3) tr1 rd [OF le] by simp
      ultimately show ?thesis
        using step rec u pe(1,2) by metis
    next
      assume "\<exists>k e. Suc i \<le> k \<and> k \<le> n \<and> r' = Inl e
                  \<and> trace \<sigma>' = trace \<sigma>1 @ reads (Suc i) (Suc k) @ [Threw e]"
      then obtain k e where k: "Suc i \<le> k" "k \<le> n" "r' = Inl e"
        "trace \<sigma>' = trace \<sigma>1 @ reads (Suc i) (Suc k) @ [Threw e]"
        by blast
      have "trace \<sigma>' = trace \<sigma> @ reads i (Suc k) @ [Threw e]"
        using k(1,4) tr1 rd [of k] by simp
      moreover have "i \<le> k" using k(1) by simp
      ultimately show ?thesis
        using step rec u pe(1,2) k(2,3) by metis
    qed
  qed
qed

text \<open>
  Past the exact range the counter stops moving: at \<open>2 ^ 53\<close> the increment rounds back to
  \<open>2 ^ 53\<close>, and a loop whose bound is that large does not return while the read of that id
  keeps resolving.
\<close>

lemma bit_length_double_Suc: "0 < n \<Longrightarrow> bit_length (Suc (2 * n)) = Suc (bit_length n)"
  by (subst bit_length.simps) simp

lemma js_inc_2_53: "js_inc (2 ^ 53) = 2 ^ 53"
proof -
  define p :: nat where "p = 2 ^ 52"
  have "bit_length p = 53"
    unfolding p_def using bit_length_power2 [of 52] by simp
  moreover have "0 < p"
    by (simp add: p_def)
  ultimately have len: "bit_length (Suc (2 * p)) = 54"
    by (simp add: bit_length_double_Suc)
  have big: "\<not> Suc (2 * p) < 2 ^ 53"
    by (simp add: p_def)
  have ev: "even p"
    by (simp add: p_def)
  have "Number_bigint (Suc (2 * p)) = 2 * p"
    unfolding Number_bigint_def Let_def using big ev by (simp add: len)
  then show ?thesis
    by (simp add: js_inc_def p_def)
qed

lemma loadLoop_may_not_return:
  assumes ok: "\<And>w. \<exists>a w'. env_getAsset (env :: 'w env) c (2 ^ 53) w = (Inr a, w')"
    and big: "2 ^ 53 \<le> n"
  shows "loadLoop env c (2 ^ 53) n list \<sigma> = None"
proof (rule ccontr)
  assume "loadLoop env c (2 ^ 53) n list \<sigma> \<noteq> None"
  then obtain y where y: "loadLoop env c (2 ^ 53) n list \<sigma> = Some y"
    by blast
  have "\<not> (2 ^ 53 = (2 ^ 53 :: nat) \<and> env = env \<and> c = c \<and> 2 ^ 53 \<le> n)"
  proof (rule loadLoop.raw_induct
      [where P = "\<lambda>env' c' i n' list \<sigma> y. \<not> (i = 2 ^ 53 \<and> env' = env \<and> c' = c \<and> 2 ^ 53 \<le> n')",
        OF _ y])
    fix f :: "'w env \<Rightarrow> contract \<Rightarrow> nat \<Rightarrow> nat \<Rightarrow> asset list \<Rightarrow> 'w machine
       \<Rightarrow> ((string + asset list) \<times> 'w machine) option"
    fix env' c' i n' list \<sigma> y
    assume ih: "\<And>env' c' i n' list \<sigma> y. f env' c' i n' list \<sigma> = Some y
                  \<Longrightarrow> \<not> (i = 2 ^ 53 \<and> env' = env \<and> c' = c \<and> 2 ^ 53 \<le> n')"
    assume body: "(if i \<le> n' then
          (case perform (GetAsset i) (env_getAsset env' c' i) \<sigma> of
             (Inl e, \<sigma>') \<Rightarrow> Some (Inl e, \<sigma>')
           | (Inr a, \<sigma>') \<Rightarrow> f env' c' (js_inc i) n' (list @ [make_asset i a]) \<sigma>')
        else Some (Inr list, \<sigma>)) = Some y"
    show "\<not> (i = 2 ^ 53 \<and> env' = env \<and> c' = c \<and> 2 ^ 53 \<le> n')"
    proof
      assume a: "i = 2 ^ 53 \<and> env' = env \<and> c' = c \<and> 2 ^ 53 \<le> n'"
      from ok obtain v w' where g: "env_getAsset env c (2 ^ 53) (world \<sigma>) = (Inr v, w')"
        by blast
      then obtain \<sigma>' where "perform (GetAsset i) (env_getAsset env' c' i) \<sigma> = (Inr v, \<sigma>')"
        using a by (simp add: perform_def)
      with body a have "f env c (js_inc (2 ^ 53)) n' (list @ [make_asset i v]) \<sigma>' = Some y"
        by simp
      then have "f env c (2 ^ 53) n' (list @ [make_asset i v]) \<sigma>' = Some y"
        by (simp only: js_inc_2_53)
      from ih [OF this] a show False by simp
    qed
  qed
  with big show False by simp
qed


lemma loadAssets_total:
  assumes c: "(case copt of Some c' \<Rightarrow> Some c' | None \<Rightarrow> contract cl) = Some c"
    and ex: "exact_count (env_assetCount env c (world \<sigma>))"
  shows "\<exists>\<sigma>' evs. loadAssets env cl copt \<sigma> = Some \<sigma>' \<and> trace \<sigma>' = trace \<sigma> @ evs
           \<and> listeners \<sigma>' = listeners \<sigma>
           \<and> ((\<exists>list count w. env_assetCount env c (world \<sigma>) = (Inr count, w)
                   \<and> length list = unat count \<and> map id' list = [1..<Suc (unat count)]
                   \<and> evs = Call AssetCount # reads 1 (Suc (unat count)) @ [Set (SetAssets list)]
                   \<and> ui \<sigma>' = (ui \<sigma>)\<lparr>assets := list\<rparr>)
              \<or> (\<exists>k e. evs = Call AssetCount # reads 1 (Suc k)
                              @ [Threw e, Set (SetMessage (msg_load_error e))]
                   \<and> ui \<sigma>' = (ui \<sigma>)\<lparr>message := msg_load_error e\<rparr>))"
proof -
  obtain r \<sigma>1 where p: "perform AssetCount (env_assetCount env c) \<sigma> = (r, \<sigma>1)"
    by (cases "perform AssetCount (env_assetCount env c) \<sigma>")
  note pe = performE [OF p]
  show ?thesis
  proof (cases r)
    case (Inl e)
    have "loadAssets env cl copt \<sigma> = Some (setState (SetMessage (msg_load_error e)) \<sigma>1)"
      using c p Inl by (simp add: loadAssets_def)
    moreover have "trace (setState (SetMessage (msg_load_error e)) \<sigma>1)
        = trace \<sigma> @ Call AssetCount # reads 1 (Suc 0) @ [Threw e, Set (SetMessage (msg_load_error e))]"
      using pe(4) Inl by (simp add: reads_def gets_def)
    ultimately show ?thesis
      using pe(1,2)
      by (intro exI [of _ "setState (SetMessage (msg_load_error e)) \<sigma>1"]
            exI [of _ "Call AssetCount # reads 1 (Suc 0) @ [Threw e, Set (SetMessage (msg_load_error e))]"]
            conjI disjI2 exI [of _ "0::nat"] exI [of _ e]) simp_all
  next
    case (Inr count)
    from ex pe(3) Inr have small: "unat count < 2 ^ 53"
      by (simp add: exact_count_def)
    then have num: "Number_bigint (unat count) = unat count"
      by (rule Number_bigint_exact)
    from loadLoop_total [OF small, of 1 env c "[]" \<sigma>1]
    have "\<exists>r' \<sigma>2. loadLoop env c 1 (unat count) [] \<sigma>1 = Some (r', \<sigma>2)
      \<and> ui \<sigma>2 = ui \<sigma>1 \<and> listeners \<sigma>2 = listeners \<sigma>1
      \<and> ((\<exists>new. r' = Inr new \<and> map id' new = [1..<Suc (unat count)]
                  \<and> trace \<sigma>2 = trace \<sigma>1 @ reads 1 (Suc (unat count)))
              \<or> (\<exists>k e. 1 \<le> k \<and> k \<le> unat count \<and> r' = Inl e
                  \<and> trace \<sigma>2 = trace \<sigma>1 @ reads 1 (Suc k) @ [Threw e]))"
      by simp
    then obtain r' \<sigma>2 where l: "loadLoop env c 1 (unat count) [] \<sigma>1 = Some (r', \<sigma>2)"
      and u: "ui \<sigma>2 = ui \<sigma>1" "listeners \<sigma>2 = listeners \<sigma>1"
      and sh: "(\<exists>new. r' = Inr new \<and> map id' new = [1..<Suc (unat count)]
                  \<and> trace \<sigma>2 = trace \<sigma>1 @ reads 1 (Suc (unat count)))
              \<or> (\<exists>k e. 1 \<le> k \<and> k \<le> unat count \<and> r' = Inl e
                  \<and> trace \<sigma>2 = trace \<sigma>1 @ reads 1 (Suc k) @ [Threw e])"
      by blast
    have tr1: "trace \<sigma>1 = trace \<sigma> @ [Call AssetCount]"
      using pe(4) Inr by simp
    from sh show ?thesis
    proof
      assume "\<exists>new. r' = Inr new \<and> map id' new = [1..<Suc (unat count)]
                  \<and> trace \<sigma>2 = trace \<sigma>1 @ reads 1 (Suc (unat count))"
      then obtain new where n: "r' = Inr new" "map id' new = [1..<Suc (unat count)]"
        "trace \<sigma>2 = trace \<sigma>1 @ reads 1 (Suc (unat count))"
        by blast
      have len: "length new = unat count"
        using arg_cong [OF n(2), of length] by simp
      have "loadAssets env cl copt \<sigma> = Some (setState (SetAssets new) \<sigma>2)"
        using c p Inr num l n(1) by (simp add: loadAssets_def)
      moreover have "trace (setState (SetAssets new) \<sigma>2)
          = trace \<sigma> @ Call AssetCount # reads 1 (Suc (unat count)) @ [Set (SetAssets new)]"
        using n(3) tr1 by simp
      moreover have "ui (setState (SetAssets new) \<sigma>2) = (ui \<sigma>)\<lparr>assets := new\<rparr>"
        using u(1) pe(1) by simp
      moreover have "listeners (setState (SetAssets new) \<sigma>2) = listeners \<sigma>"
        using u(2) pe(2) by simp
      moreover have "env_assetCount env c (world \<sigma>) = (Inr count, world \<sigma>1)"
        using pe(3) Inr by simp
      ultimately show ?thesis
        using len n(2) by (intro exI conjI disjI1) (assumption | rule refl)+
    next
      assume "\<exists>k e. 1 \<le> k \<and> k \<le> unat count \<and> r' = Inl e
                  \<and> trace \<sigma>2 = trace \<sigma>1 @ reads 1 (Suc k) @ [Threw e]"
      then obtain k e where k: "r' = Inl e" "trace \<sigma>2 = trace \<sigma>1 @ reads 1 (Suc k) @ [Threw e]"
        by blast
      have "loadAssets env cl copt \<sigma> = Some (setState (SetMessage (msg_load_error e)) \<sigma>2)"
        using c p Inr num l k(1) by (simp add: loadAssets_def)
      moreover have "trace (setState (SetMessage (msg_load_error e)) \<sigma>2)
          = trace \<sigma> @ Call AssetCount # reads 1 (Suc k) @ [Threw e, Set (SetMessage (msg_load_error e))]"
        using k(2) tr1 by simp
      moreover have "ui (setState (SetMessage (msg_load_error e)) \<sigma>2) = (ui \<sigma>)\<lparr>message := msg_load_error e\<rparr>"
        using u(1) pe(1) by simp
      moreover have "listeners (setState (SetMessage (msg_load_error e)) \<sigma>2) = listeners \<sigma>"
        using u(2) pe(2) by simp
      ultimately show ?thesis
        by (intro exI conjI disjI2) (assumption | rule refl)+
    qed
  qed
qed




section \<open>The handlers, whenever they return\<close>

lemma loadAssets_frame:
  assumes "loadAssets env cl copt \<sigma> = Some \<sigma>'"
  shows "listeners \<sigma>' = listeners \<sigma>"
    and "ui \<sigma>' = ui \<sigma> \<or> (\<exists>e. ui \<sigma>' = (ui \<sigma>)\<lparr>message := msg_load_error e\<rparr>)
           \<or> (\<exists>l. ui \<sigma>' = (ui \<sigma>)\<lparr>assets := l\<rparr>)"
proof -
  show "listeners \<sigma>' = listeners \<sigma>"
    using assms
    by (auto simp: loadAssets_def split: option.splits prod.splits sum.splits
          dest!: performE(2) loadLoop_returns(2))
  show "ui \<sigma>' = ui \<sigma> \<or> (\<exists>e. ui \<sigma>' = (ui \<sigma>)\<lparr>message := msg_load_error e\<rparr>)
           \<or> (\<exists>l. ui \<sigma>' = (ui \<sigma>)\<lparr>assets := l\<rparr>)"
    using assms
    by (auto simp: loadAssets_def split: option.splits prod.splits sum.splits
          dest!: performE(1) loadLoop_returns(1))
qed


lemma loadAssets_terminates:
  assumes "counts_exact env"
  shows "loadAssets env cl copt \<sigma> \<noteq> None"
proof (cases "case copt of Some c' \<Rightarrow> Some c' | None \<Rightarrow> contract cl")
  case None
  then show ?thesis by (simp add: loadAssets_def)
next
  case (Some c)
  have "exact_count (env_assetCount env c (world \<sigma>))"
    using assms by (simp add: counts_exact_def)
  from loadAssets_total [OF Some this] show ?thesis by auto
qed


lemma registerAsset_terminates:
  assumes "counts_exact env"
  shows "registerAsset env \<sigma> \<noteq> None"
  by (auto simp: registerAsset_def Let_def loadAssets_terminates [OF assms]
        split: option.splits prod.splits sum.splits)

lemma registerAsset_frame:
  assumes "registerAsset env \<sigma> = Some \<sigma>'"
  shows "listeners \<sigma>' = listeners \<sigma>"
    and "contract (ui \<sigma>) \<noteq> None \<or> \<not> loading (ui \<sigma>) \<Longrightarrow> \<not> loading (ui \<sigma>')"
  using assms
  by (auto simp: registerAsset_def Let_def split: option.splits prod.splits sum.splits
        dest!: performE(2) loadAssets_frame(1))


lemma transferOwnership_terminates:
  assumes "counts_exact env"
  shows "transferOwnership env \<sigma> \<noteq> None"
  by (auto simp: transferOwnership_def Let_def loadAssets_terminates [OF assms]
        split: option.splits prod.splits sum.splits)

lemma transferOwnership_frame:
  assumes "transferOwnership env \<sigma> = Some \<sigma>'"
  shows "listeners \<sigma>' = listeners \<sigma>"
    and "contract (ui \<sigma>) \<noteq> None \<or> \<not> loading (ui \<sigma>) \<Longrightarrow> \<not> loading (ui \<sigma>')"
  using assms
  by (auto simp: transferOwnership_def Let_def split: option.splits prod.splits sum.splits
        dest!: performE(2) loadAssets_frame(1))

lemma counts_exact_demo: "counts_exact demo_env"
  by (simp add: counts_exact_def exact_count_def demo_env_def demo_stored_def split: option.splits)

lemma demo_ready_reachable:
  "map_option (\<lambda>\<sigma>. (typeAssetHash ''0xabc'' (typeAssetName ''Deed A'' \<sigma>))\<lparr>trace := []\<rparr>)
     (connectContract demo_env (mount demo_env demo_init)) = Some demo_ready"
  by (simp add: run_defs demo_defs mount_def typeAssetName_def typeAssetHash_def)

lemma demo_loaded_reachable:
  "map_option (\<lambda>\<sigma>. (typeTransferTo ''0xBB'' (typeTransferAssetId ''1''
                      (typeVerifyHash ''0xabc'' (typeVerifyAssetId ''1'' \<sigma>))))\<lparr>trace := []\<rparr>)
     (registerAsset demo_env demo_ready) = Some demo_loaded"
  by (simp add: run_defs demo_defs typeTransferTo_def typeTransferAssetId_def typeVerifyHash_def
        typeVerifyAssetId_def)

lemma other_handlers_keep_loading:
  "loading (ui (connectWallet env \<sigma>)) = loading (ui \<sigma>)"
  "loading (ui (verifyAsset env \<sigma>)) = loading (ui \<sigma>)"
  "loading (ui (emit_accountsChanged accounts \<sigma>)) = loading (ui \<sigma>)"
  "loadAssets env cl copt \<sigma> = Some \<sigma>' \<Longrightarrow> loading (ui \<sigma>') = loading (ui \<sigma>)"
  "connectContract env \<sigma> = Some \<sigma>' \<Longrightarrow> loading (ui \<sigma>') = loading (ui \<sigma>)"
proof -
  show "loading (ui (connectWallet env \<sigma>)) = loading (ui \<sigma>)"
    by (auto simp: connectWallet_def on_accountsChanged_def
          split: prod.splits sum.splits dest!: performE(1))
  show "loading (ui (verifyAsset env \<sigma>)) = loading (ui \<sigma>)"
    by (auto simp: verifyAsset_def Let_def split: option.splits prod.splits sum.splits
          dest!: performE(1))
  show "loading (ui (emit_accountsChanged accounts \<sigma>)) = loading (ui \<sigma>)"
    by (simp add: emit_accountsChanged_def callback_iterated)
  show l: "\<And>\<sigma> \<sigma>'. loadAssets env cl copt \<sigma> = Some \<sigma>' \<Longrightarrow> loading (ui \<sigma>') = loading (ui \<sigma>)"
    using loadAssets_frame(2) by fastforce
  show "connectContract env \<sigma> = Some \<sigma>' \<Longrightarrow> loading (ui \<sigma>') = loading (ui \<sigma>)"
    by (auto simp: connectContract_def Let_def split: option.splits prod.splits sum.splits
          dest!: performE(1) loadAssets_frame(2))
qed

lemma connectWallet_listeners:
  "listeners (connectWallet env \<sigma>)
     = (if message (ui (connectWallet env \<sigma>)) = msg_wallet_connected
        then Suc (listeners \<sigma>) else listeners \<sigma>)"
  by (auto simp: connectWallet_def on_accountsChanged_def msg_wallet_connected_distinct
        split: prod.splits sum.splits dest!: performE(2))

lemma connect_times_listeners:
  assumes "\<forall>k<n. message (ui (connect_times env (Suc k) \<sigma>)) = msg_wallet_connected"
  shows "listeners (connect_times env n \<sigma>) = listeners \<sigma> + n"
  using assms
proof (induction n)
  case 0
  show ?case by simp
next
  case (Suc n)
  then have "listeners (connect_times env n \<sigma>) = listeners \<sigma> + n"
    by simp
  moreover from Suc.prems
  have "message (ui (connectWallet env (connect_times env n \<sigma>))) = msg_wallet_connected"
    by (metis connect_times.simps(2) lessI)
  ultimately show ?case
    by (simp add: connectWallet_listeners)
qed

lemma connectContract_frame:
  assumes "connectContract env \<sigma> = Some \<sigma>'"
  shows "listeners \<sigma>' = listeners \<sigma>"
  using assms
  by (auto simp: connectContract_def Let_def split: option.splits prod.splits sum.splits
        dest!: performE(2) loadAssets_frame(1))

lemma verifyAsset_frame: "listeners (verifyAsset env \<sigma>) = listeners \<sigma>"
  by (auto simp: verifyAsset_def Let_def split: option.splits prod.splits sum.splits
        dest!: performE(2))

section \<open>The catalog refresh\<close>



section \<open>Order of the steps of a mutating handler\<close>




section \<open>The busy flag after a mutating handler\<close>

text \<open>
  C4. From a state where a contract is bound or the busy flag is clear, every run of
  \<^verbatim>\<open>registerAsset\<close> or \<^verbatim>\<open>transferOwnership\<close> that returns leaves the busy flag
  clear, whichever way it ended; and the handlers do return whenever the counts the
  registry reports are below \<open>2 ^ 53\<close>.
\<close>

theorem mutation_returns_idle:
  assumes "contract (ui \<sigma>) \<noteq> None \<or> \<not> loading (ui \<sigma>)"
  shows "(counts_exact env \<longrightarrow> registerAsset env \<sigma> \<noteq> None \<and> transferOwnership env \<sigma> \<noteq> None)
       \<and> (\<forall>\<sigma>'. registerAsset env \<sigma> = Some \<sigma>' \<or> transferOwnership env \<sigma> = Some \<sigma>'
              \<longrightarrow> \<not> loading (ui \<sigma>'))"
  using registerAsset_frame(2) [OF _ assms] transferOwnership_frame(2) [OF _ assms]
    registerAsset_terminates transferOwnership_terminates
  by blast

theorem mutation_returns_idle_witness:
  "\<not> loading (ui demo_loaded) \<and> counts_exact demo_env
   \<and> registerAsset demo_env demo_loaded \<noteq> None \<and> transferOwnership demo_env demo_loaded \<noteq> None
   \<and> map_option (message \<circ> ui) (registerAsset demo_env demo_loaded)
       = Some (msg_register_error ''registry full'')
   \<and> \<not> loading (ui (the (registerAsset demo_env demo_loaded)))
   \<and> \<not> loading (ui (the (transferOwnership demo_env demo_loaded)))"
proof -
  have l: "contract (ui demo_loaded) \<noteq> None \<or> \<not> loading (ui demo_loaded)"
    by (simp add: demo_loaded_def initial_state_def)
  have m: "map_option (message \<circ> ui) (registerAsset demo_env demo_loaded)
       = Some (msg_register_error ''registry full'')"
    by (simp add: run_defs demo_defs)
  have "\<not> loading (ui demo_loaded)"
    by (simp add: demo_loaded_def initial_state_def)
  with mutation_returns_idle [OF l, of demo_env] counts_exact_demo m show ?thesis
    by auto
qed

section \<open>Validation of the inputs\<close>




section \<open>A second mutating operation while the first is awaited\<close>

text \<open>
  C3, as the claim states it, fails. While the busy flag is set, a click on Register or
  on Transfer yields no failure: the machine after the click is the machine before it,
  and the message is still the success message shown before.
\<close>

theorem busy_click_reports_nothing:
  "loading (ui demo_busy) \<and> contract (ui demo_busy) = Some demo_contract
   \<and> clickRegister demo_env demo_busy = Some demo_busy
   \<and> clickTransfer demo_env demo_busy = Some demo_busy
   \<and> message (ui demo_busy) = msg_contract_connected
   \<and> messageSeverity (message (ui demo_busy)) = SeveritySuccess"
  by (simp add: clickRegister_def clickTransfer_def demo_defs setState_def messageSeverity_def
        msg_contract_connected_def check_mark_def cross_mark_def)

text \<open>
  C3, amended. While the busy flag is set the Register and Transfer buttons are
  disabled, so a click on either runs no handler: no call is issued, nothing is
  reported, and the ledger, the cached catalog and the rest of the state are unchanged.
\<close>

theorem busy_click_ignored:
  assumes "loading (ui \<sigma>)"
  shows "clickRegister env \<sigma> = Some \<sigma> \<and> clickTransfer env \<sigma> = Some \<sigma>"
  using assms by (simp add: clickRegister_def clickTransfer_def)

theorem busy_click_ignored_witness:
  "loading (ui demo_busy) \<and> clickRegister demo_env demo_busy = Some demo_busy
   \<and> clickTransfer demo_env demo_busy = Some demo_busy"
proof -
  have l: "loading (ui demo_busy)"
    by (simp add: demo_busy_def)
  from busy_click_ignored [OF l, of demo_env] l show ?thesis by simp
qed

section \<open>Severity of the status message\<close>

text \<open>
  C5, as the claim states it, fails. Two attempts to connect the wallet both fail, one
  for want of a provider and one because the user declines; the first message is shown
  with the success class and the second with the error class. The class is therefore no
  function of the outcome's tag.
\<close>

theorem failure_shown_as_success:
  "signer (ui (connectWallet no_wallet_env demo_init)) = None
   \<and> message (ui (connectWallet no_wallet_env demo_init)) = msg_no_metamask
   \<and> messageSeverity (message (ui (connectWallet no_wallet_env demo_init))) = SeveritySuccess
   \<and> signer (ui (connectWallet declining_env demo_init)) = None
   \<and> message (ui (connectWallet declining_env demo_init)) = msg_wallet_error ''user rejected action''
   \<and> messageSeverity (message (ui (connectWallet declining_env demo_init))) = SeverityError"
  by (simp add: run_defs demo_defs no_wallet_env_def declining_env_def messageSeverity_def
        msg_no_metamask_def msg_wallet_error_def warning_sign_def cross_mark_def)

text \<open>
  C5, amended. The severity shown is computed from the text of the message alone: it is
  the error class exactly when the text contains the cross mark. So every message of a
  caught error, whatever the error's own text, and the hash-mismatch verdict are shown
  as errors, and the affirmative messages are shown as successes.
\<close>

theorem severity_by_text:
  "(messageSeverity m = SeverityError \<longleftrightarrow> includes_str m cross_mark)
   \<and> messageSeverity (msg_wallet_error e) = SeverityError
   \<and> messageSeverity (msg_contract_error e) = SeverityError
   \<and> messageSeverity (msg_register_error e) = SeverityError
   \<and> messageSeverity (msg_transfer_error e) = SeverityError
   \<and> messageSeverity (msg_verify_error e) = SeverityError
   \<and> messageSeverity (msg_load_error e) = SeverityError
   \<and> messageSeverity msg_hash_mismatch = SeverityError
   \<and> messageSeverity msg_wallet_connected = SeveritySuccess
   \<and> messageSeverity msg_contract_connected = SeveritySuccess
   \<and> messageSeverity msg_registered = SeveritySuccess
   \<and> messageSeverity msg_transferred = SeveritySuccess
   \<and> messageSeverity msg_hash_valid = SeveritySuccess"
proof -
  have err: "\<And>r. messageSeverity (cross_mark @ r) = SeverityError"
    by (simp add: messageSeverity_def includes_prefix)
  have "messageSeverity m = SeverityError \<longleftrightarrow> includes_str m cross_mark"
    by (simp add: messageSeverity_def)
  moreover have "messageSeverity msg_wallet_connected = SeveritySuccess"
    "messageSeverity msg_contract_connected = SeveritySuccess"
    "messageSeverity msg_registered = SeveritySuccess"
    "messageSeverity msg_transferred = SeveritySuccess"
    "messageSeverity msg_hash_valid = SeveritySuccess"
    by (simp_all add: messageSeverity_def msg_defs check_mark_def cross_mark_def)
  ultimately show ?thesis
    using err by (simp add: msg_wallet_error_def msg_contract_error_def msg_register_error_def
        msg_transfer_error_def msg_verify_error_def msg_load_error_def msg_hash_mismatch_def)
qed

theorem severity_by_text_witness:
  "messageSeverity (msg_wallet_error ''user rejected action'') = SeverityError
   \<and> messageSeverity msg_wallet_connected = SeveritySuccess
   \<and> messageSeverity msg_hash_mismatch = SeverityError
   \<and> includes_str (msg_wallet_error ''user rejected action'') cross_mark"
  using severity_by_text [of "msg_wallet_error ''user rejected action''" "''user rejected action''"]
  by auto

section \<open>Verification of a hash\<close>

text \<open>
  C7. With a bound contract whose \<^verbatim>\<open>verifyAsset\<close> answers as the specification's
  \<^verbatim>\<open>readVerify\<close> does over the stored assets: for an id from 1 to the number of assets,
  the handler shows the valid message exactly when the hash equals the stored hash of
  that asset, and the mismatch message exactly when it differs; for any other id it
  shows the error message of the rejected read, which is neither verdict.
\<close>

theorem verifyAsset_result:
  assumes "contract (ui \<sigma>) = Some c"
    and "n = env_Number env (verifyAssetId (ui \<sigma>))"
    and "fst (env_verifyAsset env c n (verifyHash (ui \<sigma>)) (world \<sigma>))
           = readVerify stored n (verifyHash (ui \<sigma>))"
  shows "(id_in_range n (length stored) \<longrightarrow>
            (message (ui (verifyAsset env \<sigma>)) = msg_hash_valid
               \<longleftrightarrow> stored_hash stored n = verifyHash (ui \<sigma>))
          \<and> (message (ui (verifyAsset env \<sigma>)) = msg_hash_mismatch
               \<longleftrightarrow> stored_hash stored n \<noteq> verifyHash (ui \<sigma>)))
       \<and> (\<not> id_in_range n (length stored) \<longrightarrow>
            message (ui (verifyAsset env \<sigma>)) = msg_verify_error read_error
          \<and> message (ui (verifyAsset env \<sigma>)) \<noteq> msg_hash_mismatch
          \<and> message (ui (verifyAsset env \<sigma>)) \<noteq> msg_hash_valid
          \<and> messageSeverity (message (ui (verifyAsset env \<sigma>))) = SeverityError)"
proof -
  let ?h = "verifyHash (ui \<sigma>)"
  obtain r \<sigma>1 where p: "perform (VerifyAsset n ?h) (env_verifyAsset env c n ?h) \<sigma> = (r, \<sigma>1)"
    by (cases "perform (VerifyAsset n ?h) (env_verifyAsset env c n ?h) \<sigma>")
  from performE(3) [OF p] assms(3) have r: "r = readVerify stored n ?h"
    by simp
  have res: "verifyAsset env \<sigma> =
      (case r of Inl e \<Rightarrow> setState (SetMessage (msg_verify_error e)) \<sigma>1
       | Inr valid \<Rightarrow> setState (SetMessage (if valid then msg_hash_valid else msg_hash_mismatch)) \<sigma>1)"
    using assms(1,2) p by (simp add: verifyAsset_def split: sum.splits)
  have ne: "msg_hash_valid \<noteq> msg_hash_mismatch" "msg_verify_error read_error \<noteq> msg_hash_mismatch"
    "msg_verify_error read_error \<noteq> msg_hash_valid"
    by (simp_all add: msg_defs check_mark_def cross_mark_def)
  have sev: "messageSeverity (msg_verify_error read_error) = SeverityError"
    by (simp add: messageSeverity_def msg_verify_error_def includes_prefix)
  show ?thesis
    using res r ne sev by (auto simp: readVerify_def)
qed

theorem verifyAsset_result_witness:
  "contract (ui demo_loaded) = Some demo_contract
   \<and> demo_Number (verifyAssetId (ui demo_loaded)) = JInt 1
   \<and> id_in_range (JInt 1) (length [deed_A])
   \<and> stored_hash [deed_A] (JInt 1) = verifyHash (ui demo_loaded)
   \<and> message (ui (verifyAsset demo_env demo_loaded)) = msg_hash_valid"
proof -
  have c: "contract (ui demo_loaded) = Some demo_contract"
    by (simp add: demo_loaded_def initial_state_def)
  have n: "JInt 1 = env_Number demo_env (verifyAssetId (ui demo_loaded))"
    by (simp add: demo_defs demo_Number_def Number_bigint_exact)
  have v: "fst (env_verifyAsset demo_env demo_contract (JInt 1) (verifyHash (ui demo_loaded))
                 (world demo_loaded))
           = readVerify [deed_A] (JInt 1) (verifyHash (ui demo_loaded))"
    by (simp add: demo_defs)
  have r: "id_in_range (JInt 1) (length [deed_A])"
    by (simp add: id_in_range_def)
  have h: "stored_hash [deed_A] (JInt 1) = verifyHash (ui demo_loaded)"
    by (simp add: stored_hash_def demo_defs)
  from verifyAsset_result [OF c n v] c n r h show ?thesis
    by (simp add: demo_env_def)
qed

section \<open>Operations without a connection\<close>

text \<open>
  C8, as the claim states it, fails. On the page as first rendered, with nothing
  connected, the handlers of Register, Transfer, Verify and Refresh return without any
  effect: the message stays empty and no status is rendered.
\<close>

theorem disconnected_handlers_silent:
  "contract (ui demo_init) = None \<and> signer (ui demo_init) = None
   \<and> registerAsset demo_env demo_init = Some demo_init
   \<and> transferOwnership demo_env demo_init = Some demo_init
   \<and> verifyAsset demo_env demo_init = demo_init
   \<and> loadAssets demo_env (ui demo_init) None demo_init = Some demo_init
   \<and> message (ui demo_init) = [] \<and> trace demo_init = []
   \<and> messageClassName (message (ui demo_init)) = None"
  by (simp add: run_defs demo_defs messageClassName_def)

text \<open>
  C8, amended. While no contract is bound, \<^verbatim>\<open>registerAsset\<close>,
  \<^verbatim>\<open>transferOwnership\<close>, \<^verbatim>\<open>verifyAsset\<close> and \<^verbatim>\<open>loadAssets\<close> return at once and
  change nothing (no call, no message), and their buttons are disabled. Only
  \<^verbatim>\<open>connectContract\<close> reports: without a signer its handler sets the message that asks
  to connect the wallet first and does nothing else, and its button is disabled as well.
\<close>

theorem disconnected_operations:
  assumes "contract (ui \<sigma>) = None"
  shows "registerAsset env \<sigma> = Some \<sigma> \<and> transferOwnership env \<sigma> = Some \<sigma>
       \<and> verifyAsset env \<sigma> = \<sigma> \<and> loadAssets env (ui \<sigma>) None \<sigma> = Some \<sigma>
       \<and> clickRegister env \<sigma> = Some \<sigma> \<and> clickTransfer env \<sigma> = Some \<sigma>
       \<and> clickVerify env \<sigma> = \<sigma> \<and> clickRefresh env \<sigma> = Some \<sigma>
       \<and> (signer (ui \<sigma>) = None \<longrightarrow>
             connectContract env \<sigma> = Some (setState (SetMessage msg_connect_wallet_first) \<sigma>)
           \<and> clickConnectContract env \<sigma> = Some \<sigma>)"
  using assms
  by (simp add: registerAsset_def transferOwnership_def verifyAsset_def loadAssets_def
        clickRegister_def clickTransfer_def clickVerify_def clickRefresh_def connectContract_def
        clickConnectContract_def)

theorem disconnected_operations_witness:
  "contract (ui demo_init) = None \<and> signer (ui demo_init) = None
   \<and> registerAsset demo_env demo_init = Some demo_init
   \<and> verifyAsset demo_env demo_init = demo_init
   \<and> connectContract demo_env demo_init
       = Some (setState (SetMessage msg_connect_wallet_first) demo_init)"
proof -
  have c: "contract (ui demo_init) = None" and s: "signer (ui demo_init) = None"
    by (simp_all add: demo_init_def initial_state_def)
  from disconnected_operations [OF c, of demo_env] c s show ?thesis by simp
qed

section \<open>A change of the wallet's accounts\<close>

text \<open>
  C9, as the claim states it, fails. On the page that shows the registered asset, the
  event with the new account \<^verbatim>\<open>0xBB\<close> changes the account shown and nothing else: the
  contract handle is the one built for the signer of \<^verbatim>\<open>0xAA\<close>, the signer is the old
  one, the cached assets are the same, and no call is made.
\<close>

theorem accountsChanged_keeps_binding:
  "contract (ui demo_loaded) = Some (Contract CONTRACT_ADDRESS (Signer ''0xAA''))
   \<and> contract (ui (emit_accountsChanged [''0xBB''] demo_loaded))
       = Some (Contract CONTRACT_ADDRESS (Signer ''0xAA''))
   \<and> signer (ui (emit_accountsChanged [''0xBB''] demo_loaded)) = Some (Signer ''0xAA'')
   \<and> account (ui (emit_accountsChanged [''0xBB''] demo_loaded)) = ''0xBB''
   \<and> assets (ui (emit_accountsChanged [''0xBB''] demo_loaded)) = assets (ui demo_loaded)
   \<and> trace (emit_accountsChanged [''0xBB''] demo_loaded) = [Set (SetAccount ''0xBB'')]"
  by (simp add: emit_accountsChanged_def accountsChanged_callback_def setState_def demo_defs)

text \<open>
  C9, amended. When the provider emits the event with the list \<open>accounts\<close> and a callback
  is registered, the account of the state becomes the first entry of the list, or the
  empty text when the list is empty; the only effects are the callbacks' updates of the
  account. The provider, the signer, the contract handle, the cached assets and the
  world are unchanged: nothing is rebound and nothing is refreshed.
\<close>

theorem accountsChanged_sets_account_only:
  assumes "0 < listeners \<sigma>"
  shows "ui (emit_accountsChanged accounts \<sigma>)
           = (ui \<sigma>)\<lparr>account := (case accounts of [] \<Rightarrow> [] | a # rest \<Rightarrow> a)\<rparr>
       \<and> world (emit_accountsChanged accounts \<sigma>) = world \<sigma>
       \<and> listeners (emit_accountsChanged accounts \<sigma>) = listeners \<sigma>
       \<and> trace (emit_accountsChanged accounts \<sigma>)
           = trace \<sigma> @ replicate (listeners \<sigma>)
               (Set (SetAccount (case accounts of [] \<Rightarrow> [] | a # rest \<Rightarrow> a)))"
proof -
  have f: "first_account accounts = (case accounts of [] \<Rightarrow> [] | a # rest \<Rightarrow> a)"
    by (cases accounts) simp_all
  show ?thesis
    using assms by (simp add: emit_accountsChanged_def callback_iterated f [symmetric])
qed

theorem accountsChanged_sets_account_only_witness:
  "0 < listeners demo_loaded
   \<and> ui (emit_accountsChanged [] demo_loaded) = (ui demo_loaded)\<lparr>account := []\<rparr>
   \<and> contract (ui (emit_accountsChanged [] demo_loaded)) = contract (ui demo_loaded)
   \<and> world (emit_accountsChanged [] demo_loaded) = world demo_loaded"
proof -
  have l: "0 < listeners demo_loaded"
    by (simp add: demo_loaded_def)
  from accountsChanged_sets_account_only [OF l, of "[]"] l show ?thesis by simp
qed

section \<open>Registered callbacks\<close>

text \<open>
  C10. A call of \<^verbatim>\<open>connectWallet\<close> that ends with the success message has registered
  one more callback; no call of it removes one, and no other handler, nor the event
  itself, changes the number of callbacks. The effect hook calls the same handler when a
  provider is present. Hence, starting with no callback, after \<open>n\<close> successful calls
  there are \<open>n\<close> callbacks, and one event runs the callback \<open>n\<close> times: it adds \<open>n\<close>
  updates of the account to the effects.
\<close>

theorem listeners_accumulate:
  "(message (ui (connectWallet env \<sigma>)) = msg_wallet_connected
      \<longrightarrow> listeners (connectWallet env \<sigma>) = Suc (listeners \<sigma>))
   \<and> listeners \<sigma> \<le> listeners (connectWallet env \<sigma>)
   \<and> (\<forall>\<sigma>'. connectContract env \<sigma> = Some \<sigma>' \<or> registerAsset env \<sigma> = Some \<sigma>'
            \<or> transferOwnership env \<sigma> = Some \<sigma>' \<or> loadAssets env cl copt \<sigma> = Some \<sigma>'
          \<longrightarrow> listeners \<sigma>' = listeners \<sigma>)
   \<and> listeners (verifyAsset env \<sigma>) = listeners \<sigma>
   \<and> listeners (emit_accountsChanged accounts \<sigma>) = listeners \<sigma>
   \<and> (env_ethereum env (world \<sigma>) \<longrightarrow> mount env \<sigma> = connectWallet env \<sigma>)
   \<and> (listeners \<sigma> = 0
        \<and> (\<forall>k<n. message (ui (connect_times env (Suc k) \<sigma>)) = msg_wallet_connected)
      \<longrightarrow> listeners (connect_times env n \<sigma>) = n
        \<and> trace (emit_accountsChanged accounts (connect_times env n \<sigma>))
            = trace (connect_times env n \<sigma>)
                @ replicate n (Set (SetAccount (first_account accounts))))"
proof -
  have "\<forall>\<sigma>'. connectContract env \<sigma> = Some \<sigma>' \<or> registerAsset env \<sigma> = Some \<sigma>'
            \<or> transferOwnership env \<sigma> = Some \<sigma>' \<or> loadAssets env cl copt \<sigma> = Some \<sigma>'
          \<longrightarrow> listeners \<sigma>' = listeners \<sigma>"
    using connectContract_frame registerAsset_frame(1) transferOwnership_frame(1)
      loadAssets_frame(1) by blast
  moreover have "listeners \<sigma> = 0
        \<and> (\<forall>k<n. message (ui (connect_times env (Suc k) \<sigma>)) = msg_wallet_connected)
      \<longrightarrow> listeners (connect_times env n \<sigma>) = n
        \<and> trace (emit_accountsChanged accounts (connect_times env n \<sigma>))
            = trace (connect_times env n \<sigma>)
                @ replicate n (Set (SetAccount (first_account accounts)))"
    using connect_times_listeners [of n env \<sigma>]
    by (simp add: emit_accountsChanged_def callback_iterated)
  ultimately show ?thesis
    by (simp add: connectWallet_listeners verifyAsset_frame emit_accountsChanged_def
          callback_iterated mount_def)
qed

theorem listeners_accumulate_witness:
  "listeners demo_init = 0
   \<and> message (ui (connect_times demo_env (Suc 0) demo_init)) = msg_wallet_connected
   \<and> message (ui (connect_times demo_env (Suc (Suc 0)) demo_init)) = msg_wallet_connected
   \<and> listeners (connect_times demo_env (Suc (Suc 0)) demo_init) = Suc (Suc 0)
   \<and> trace (emit_accountsChanged [''0xBB''] (connect_times demo_env (Suc (Suc 0)) demo_init))
       = trace (connect_times demo_env (Suc (Suc 0)) demo_init)
           @ [Set (SetAccount ''0xBB''), Set (SetAccount ''0xBB'')]"
proof -
  have z: "listeners demo_init = 0"
    by (simp add: demo_init_def)
  have s1: "message (ui (connect_times demo_env (Suc 0) demo_init)) = msg_wallet_connected"
    by (simp add: run_defs demo_defs)
  have s2: "message (ui (connect_times demo_env (Suc (Suc 0)) demo_init)) = msg_wallet_connected"
    by (simp add: run_defs demo_defs)
  have all: "\<forall>k<Suc (Suc 0). message (ui (connect_times demo_env (Suc k) demo_init))
                = msg_wallet_connected"
    using s1 s2 by (simp add: less_Suc_eq)
  from listeners_accumulate [of demo_env demo_init _ _ "[''0xBB'']" "Suc (Suc 0)"] z all s1 s2
  show ?thesis by simp
qed

end
